theory Spec2Isabelle
  imports Main "HOL-Library.Word"
begin

unbundle bit_operations_syntax

section \<open>Data model of main.c\<close>

text \<open>
  The firmware talks to three pieces of hardware through the HAL: the debug UART
  (\<^verbatim>\<open>cyhal_uart_getc\<close>, \<^verbatim>\<open>printf\<close> through retarget-io) and the TRNG block
  (\<^verbatim>\<open>cyhal_trng_init\<close>, \<^verbatim>\<open>cyhal_trng_generate\<close>, \<^verbatim>\<open>cyhal_trng_free\<close>).
  The HAL is not part of main.c. What it answers is taken as a parameter: a
  \<open>hardware\<close> value fixes the answer of the n-th call of each function.
\<close>

type_synonym uint8_t = "8 word"
type_synonym int8_t = "8 word"
type_synonym uint32_t = "32 word"

text \<open>
  \<^verbatim>\<open>cy_rslt_t\<close>: main.c only compares a result with \<^verbatim>\<open>CY_RSLT_SUCCESS\<close>; every other
  value is a failure, kept with its code.
\<close>

datatype cy_rslt_t = CY_RSLT_SUCCESS | CY_RSLT_ERROR nat

record hardware =
  uart_rx :: "nat \<Rightarrow> cy_rslt_t \<times> uint8_t"
  trng_init_rslt :: "nat \<Rightarrow> cy_rslt_t"
  trng_words :: "nat \<Rightarrow> uint32_t"

text \<open>
  Everything the program does that can be seen from outside, in program order: the
  HAL calls with their answers, the text handed to \<^verbatim>\<open>printf\<close> (as the bytes sent),
  and the stores into the local array \<^verbatim>\<open>password\<close> (index and byte).
\<close>

datatype event =
    Uart_getc cy_rslt_t uint8_t
  | Trng_init cy_rslt_t
  | Trng_generate uint32_t
  | Trng_free
  | Printf "uint8_t list"
  | Password_store int uint8_t

text \<open>
  The program state: the global \<^verbatim>\<open>uart_read_value\<close>, how many answers of each HAL
  function have been consumed, and the events so far.
\<close>

record state =
  uart_read_value :: uint8_t
  uart_reads :: nat
  trng_inits :: nat
  trng_draws :: nat
  trace :: "event list"

text \<open>The locals of \<^verbatim>\<open>generate_password\<close> that live across its loops.\<close>

record frame =
  index :: int8_t
  temp_value :: uint8_t
  password :: "uint8_t list"

text \<open>
  What C leaves undefined is an error of the model: a store outside the array, a
  shift by the width of the operand or more, a \<^verbatim>\<open>%s\<close> argument with no terminator
  inside its array.
\<close>

datatype error = Store_out_of_bounds | Shift_out_of_range | Unterminated_string

subsection \<open>Macros\<close>

definition ASCII_7BIT_MASK :: uint32_t where
  "ASCII_7BIT_MASK = 0x7F"

definition PASSWORD_LENGTH :: uint32_t where
  "PASSWORD_LENGTH = 8"

definition ASCII_VISIBLE_CHARACTER_START :: uint32_t where
  "ASCII_VISIBLE_CHARACTER_START = 33"

definition ASCII_RETURN_CARRIAGE :: uint8_t where
  "ASCII_RETURN_CARRIAGE = 0x0D"

definition bytes :: "string \<Rightarrow> uint8_t list" where
  "bytes cs = map of_char cs"

definition CRLF :: "uint8_t list" where
  "CRLF = [0x0D, 0x0A]"

definition SCREEN_HEADER1 :: "uint8_t list" where
  "SCREEN_HEADER1 =
     CRLF @ bytes ''=================================================''
          @ bytes ''============================='' @ CRLF"

section \<open>check\_range\<close>

text \<open>
  \<^verbatim>\<open>if (value < ASCII_VISIBLE_CHARACTER_START) value += ASCII_VISIBLE_CHARACTER_START;\<close>
  The comparison is made on \<^verbatim>\<open>unsigned int\<close>; the sum is stored back into a
  \<^verbatim>\<open>uint8_t\<close>, so it is taken modulo 256.
\<close>

definition check_range :: "uint8_t \<Rightarrow> uint8_t" where
  "check_range v =
     (if (ucast v :: uint32_t) < ASCII_VISIBLE_CHARACTER_START
      then ucast ((ucast v :: uint32_t) + ASCII_VISIBLE_CHARACTER_START)
      else v)"

section \<open>generate\_password\<close>

text \<open>
  Line 192: \<^verbatim>\<open>temp_value=((random_val>>bit_position )& ASCII_7BIT_MASK);\<close>
  The shift and the mask are computed on 32 bits and the result is stored into a
  \<^verbatim>\<open>uint8_t\<close>.
\<close>

definition candidate_byte :: "uint32_t \<Rightarrow> uint8_t \<Rightarrow> uint8_t" where
  "candidate_byte random_val bit_position =
     ucast (drop_bit (unat bit_position) random_val AND ASCII_7BIT_MASK)"

text \<open>
  The inner loop, lines 189 to 196: \<^verbatim>\<open>for(int8_t j=0;j<4;j++)\<close>. Its state is \<open>j\<close>,
  \<open>bit_position\<close> and the frame; \<^verbatim>\<open>password[index++] = temp_value\<close> is a store at
  the signed value of \<open>index\<close>, an error outside the array. Incrementing an
  \<^verbatim>\<open>int8_t\<close> wraps around, as the compilers of this target do.
\<close>

function generate_password_inner ::
  "uint32_t \<Rightarrow> int8_t \<Rightarrow> uint8_t \<Rightarrow> state \<times> frame \<Rightarrow> error + state \<times> frame" where
  "generate_password_inner random_val j bit_position (s, f) =
     (if sint j < 4 then
        if 32 \<le> unat bit_position then Inl Shift_out_of_range
        else
          let t = check_range (candidate_byte random_val bit_position);
              i = sint (index f)
          in if 0 \<le> i \<and> i < int (length (password f)) then
               generate_password_inner random_val (j + 1) (bit_position + 8)
                 (s\<lparr>trace := trace s @ [Password_store i t]\<rparr>,
                  f\<lparr>temp_value := t, password := (password f)[nat i := t],
                    index := index f + 1\<rparr>)
             else Inl Store_out_of_bounds
      else Inr (s, f))"
  by pat_completeness auto

lemma int8_incr: "sint (j :: int8_t) < 127 \<Longrightarrow> sint (j + 1) = sint j + 1"
  using sint_ge [of j]
  by (simp add: sint_word_ariths signed_take_bit_int_eq_self_iff)

termination generate_password_inner
  by (relation "measure (\<lambda>(r, j, b, sf). nat (4 - sint j))") (auto simp: int8_incr)

text \<open>
  \<^verbatim>\<open>index < PASSWORD_LENGTH\<close> compares an \<^verbatim>\<open>int8_t\<close> with \<^verbatim>\<open>8u\<close>: the index is
  sign-extended and read as unsigned, so a negative index is not below 8.
\<close>

lemma uint_scast_int8:
  "uint (scast (i :: int8_t) :: uint32_t) = (if 0 \<le> sint i then sint i else sint i + 2 ^ 32)"
proof -
  have b: "- 128 \<le> sint i" "sint i < 128"
    using sint_ge [of i] sint_lt [of i] by simp_all
  have e: "uint (scast i :: uint32_t) = take_bit 32 (sint i)"
    by (subst scast_eq) (simp only: uint_word_of_int_eq len_num0 len_bit0 len_num1, simp)
  show ?thesis
  proof (cases "0 \<le> sint i")
    case True
    have "take_bit 32 (sint i) = sint i"
      using True b by (intro take_bit_int_eq_self) simp_all
    with e True show ?thesis by simp
  next
    case False
    have "take_bit 32 (sint i) = sint i mod 2 ^ 32" by (rule take_bit_eq_mod)
    also have "\<dots> = (sint i + 2 ^ 32) mod 2 ^ 32" by simp
    also have "\<dots> = sint i + 2 ^ 32" using b False by (intro mod_pos_pos_trivial) simp_all
    finally show ?thesis using False e by simp
  qed
qed

lemma scast_index_less:
  "((scast (i :: int8_t) :: uint32_t) < PASSWORD_LENGTH) = (0 \<le> sint i \<and> sint i < 8)"
  using sint_ge [of i] by (simp add: PASSWORD_LENGTH_def word_less_def uint_scast_int8)

lemma generate_password_inner_index:
  "generate_password_inner r j b sf = Inr sf' \<Longrightarrow> 0 \<le> sint j \<Longrightarrow> sint j \<le> 4 \<Longrightarrow>
   sint (index (snd sf)) + (4 - sint j) \<le> 127 \<Longrightarrow>
   sint (index (snd sf')) = sint (index (snd sf)) + (4 - sint j)"
proof (induction r j b sf rule: generate_password_inner.induct)
  case (1 r j b s f)
  show ?case
  proof (cases "sint j < 4")
    case False
    with "1.prems" show ?thesis by simp
  next
    case True
    let ?t = "check_range (candidate_byte r b)"
    let ?i = "sint (index f)"
    from True "1.prems"(1) have nb: "\<not> 32 \<le> unat b"
      by (auto split: if_splits)
    from True nb "1.prems"(1) have ok: "0 \<le> ?i \<and> ?i < int (length (password f))"
      by (auto simp: Let_def split: if_splits)
    let ?sf = "(s\<lparr>trace := trace s @ [Password_store ?i ?t]\<rparr>,
                f\<lparr>temp_value := ?t, password := (password f)[nat ?i := ?t],
                  index := index f + 1\<rparr>)"
    from True nb ok "1.prems"(1)
    have rec: "generate_password_inner r (j + 1) (b + 8) ?sf = Inr sf'"
      by (simp add: Let_def)
    have j1: "sint (j + 1) = sint j + 1" using True by (simp add: int8_incr)
    have i1: "sint (index f + 1) = ?i + 1" using True "1.prems"(4) by (simp add: int8_incr)
    have "sint (index (snd sf')) = sint (index (snd ?sf)) + (4 - sint (j + 1))"
      using True nb ok rec "1.prems" j1 i1
      by (intro "1.IH" [OF True _ refl refl]) simp_all
    with j1 i1 show ?thesis by simp
  qed
qed

text \<open>
  The outer loop, lines 182 to 197: \<^verbatim>\<open>for (index = 0; index < PASSWORD_LENGTH;)\<close>,
  entered with \<open>index = 0\<close>. Each turn draws one word from the TRNG and runs the inner
  loop on it; the loop has no increment of its own.
\<close>

function generate_password_outer ::
  "hardware \<Rightarrow> state \<times> frame \<Rightarrow> error + state \<times> frame" where
  "generate_password_outer hw (s, f) =
     (if (scast (index f) :: uint32_t) < PASSWORD_LENGTH then
        let random_val = trng_words hw (trng_draws s);
            s' = s\<lparr>trng_draws := Suc (trng_draws s),
                   trace := trace s @ [Trng_generate random_val]\<rparr>
        in case generate_password_inner random_val 0 0 (s', f) of
             Inl e \<Rightarrow> Inl e
           | Inr sf' \<Rightarrow> generate_password_outer hw sf'
      else Inr (s, f))"
  by pat_completeness auto
termination
proof (relation "measure (\<lambda>(hw, sf). nat (8 - sint (index (snd sf))))", goal_cases)
  case 1
  show ?case by simp
next
  case (2 hw s f random_val s' sf')
  from 2(1) have b: "0 \<le> sint (index f)" "sint (index f) < 8"
    by (simp_all add: scast_index_less)
  have "sint (index (snd sf')) = sint (index (snd (s', f))) + (4 - sint (0 :: int8_t))"
    using 2(4) b
    by (intro generate_password_inner_index [where r = random_val and b = 0]) simp_all
  with b show ?case by simp
qed

text \<open>
  What \<^verbatim>\<open>printf\<close> sends for a \<^verbatim>\<open>%s\<close> argument: the bytes before the first zero byte.
  With no zero byte in the array the read runs past its end.
\<close>

fun c_string :: "uint8_t list \<Rightarrow> uint8_t list option" where
  "c_string [] = None"
| "c_string (c # cs) = (if c = 0 then Some [] else map_option ((#) c) (c_string cs))"

text \<open>
  \<^verbatim>\<open>generate_password\<close>, lines 163 to 210. The array has \<^verbatim>\<open>PASSWORD_LENGTH + 1\<close> bytes,
  all zero at first. When \<^verbatim>\<open>cyhal_trng_init\<close> does not answer \<^verbatim>\<open>CY_RSLT_SUCCESS\<close> the
  function returns at once.
\<close>

definition generate_password :: "hardware \<Rightarrow> state \<Rightarrow> error + state" where
  "generate_password hw s =
     (let result = trng_init_rslt hw (trng_inits s);
          s1 = s\<lparr>trng_inits := Suc (trng_inits s), trace := trace s @ [Trng_init result]\<rparr>
      in if result = CY_RSLT_SUCCESS then
           case generate_password_outer hw
                  (s1, \<lparr>index = 0, temp_value = 0,
                        password = replicate (unat (PASSWORD_LENGTH + 1)) 0\<rparr>) of
             Inl e \<Rightarrow> Inl e
           | Inr (s2, f) \<Rightarrow>
               let i = sint (index f) in
               if 0 \<le> i \<and> i < int (length (password f)) then
                 case c_string ((password f)[nat i := 0]) of
                   None \<Rightarrow> Inl Unterminated_string
                 | Some str \<Rightarrow>
                     Inr (s2\<lparr>trace := trace s2 @
                       [Password_store i 0,
                        Printf (bytes ''One-Time Password: '' @ str @ CRLF @ [0x0A]),
                        Printf (bytes ''Press the Enter key to generate new password'' @ CRLF),
                        Printf SCREEN_HEADER1,
                        Trng_free]\<rparr>)
               else Inl Store_out_of_bounds
         else Inr s1)"

section \<open>main\<close>

text \<open>
  One turn of the \<^verbatim>\<open>for(;;)\<close> of \<^verbatim>\<open>main\<close>, lines 137 to 148. \<^verbatim>\<open>cyhal_uart_getc\<close>
  answers a result and, on success, has stored the byte read into
  \<^verbatim>\<open>uart_read_value\<close>.
\<close>

definition main_iteration :: "hardware \<Rightarrow> state \<Rightarrow> error + state" where
  "main_iteration hw s =
     (case uart_rx hw (uart_reads s) of
        (result, c) \<Rightarrow>
          let s1 = s\<lparr>uart_read_value :=
                        (if result = CY_RSLT_SUCCESS then c else uart_read_value s),
                      uart_reads := Suc (uart_reads s),
                      trace := trace s @ [Uart_getc result c]\<rparr>
          in if result = CY_RSLT_SUCCESS then
               if uart_read_value s1 = ASCII_RETURN_CARRIAGE then generate_password hw s1
               else Inr s1
             else Inr s1)"

text \<open>
  The loop never ends; \<open>main_loop n\<close> is its first \<open>n\<close> turns, the state after them
  or the error that stopped them.
\<close>

fun main_loop :: "nat \<Rightarrow> hardware \<Rightarrow> state \<Rightarrow> error + state" where
  "main_loop 0 hw s = Inr s"
| "main_loop (Suc n) hw s =
     (case main_iteration hw s of Inl e \<Rightarrow> Inl e | Inr s' \<Rightarrow> main_loop n hw s')"

section \<open>The earlier revision\<close>

text \<open>
  The second main.c of the repository (2019-2020) has no \<^verbatim>\<open>check_range\<close>: its
  \<^verbatim>\<open>generate_password\<close> draws one word per character, masks it to seven bits and
  corrects the range in place, on the 32-bit \<^verbatim>\<open>random_val\<close>, before storing it into
  the byte array.
\<close>

definition ASCII_ALPHANUMERIC_LOWER_LIMIT :: uint32_t where
  "ASCII_ALPHANUMERIC_LOWER_LIMIT = 33"

definition ASCII_ALPHANUMERIC_UPPER_LIMIT :: uint32_t where
  "ASCII_ALPHANUMERIC_UPPER_LIMIT = 127"

text \<open>Lines 422 to 430 of src/main.c, from a masked \<open>random_val\<close> to the byte stored.\<close>

definition range_correction_earlier :: "uint32_t \<Rightarrow> uint8_t" where
  "range_correction_earlier random_val =
     ucast (if random_val < ASCII_ALPHANUMERIC_LOWER_LIMIT
            then random_val + ASCII_ALPHANUMERIC_LOWER_LIMIT
            else if random_val \<ge> ASCII_ALPHANUMERIC_UPPER_LIMIT
            then random_val - ASCII_ALPHANUMERIC_LOWER_LIMIT
            else random_val)"

section \<open>Observations on a run\<close>

text \<open>
  Read off a trace: the stores into \<^verbatim>\<open>password\<close>, the texts given to \<^verbatim>\<open>printf\<close>, and
  whether the TRNG handle is held at the end (acquired by a successful
  \<^verbatim>\<open>cyhal_trng_init\<close> and not yet given back by \<^verbatim>\<open>cyhal_trng_free\<close>).
\<close>

definition stores_of :: "event list \<Rightarrow> (int \<times> uint8_t) list" where
  "stores_of tr = concat (map (\<lambda>e. case e of Password_store i c \<Rightarrow> [(i, c)] | _ \<Rightarrow> []) tr)"

definition printed :: "event list \<Rightarrow> uint8_t list list" where
  "printed tr = concat (map (\<lambda>e. case e of Printf bs \<Rightarrow> [bs] | _ \<Rightarrow> []) tr)"

definition trng_held :: "event list \<Rightarrow> bool" where
  "trng_held tr =
     foldl (\<lambda>held e. case e of Trng_init r \<Rightarrow> held \<or> r = CY_RSLT_SUCCESS
                              | Trng_free \<Rightarrow> False
                              | _ \<Rightarrow> held) False tr"

section \<open>Arithmetic of the two functions on bytes\<close>

lemma unat_ucast_8_32: "unat (ucast (v :: uint8_t) :: uint32_t) = unat v"
proof -
  have "unat v < 2 ^ 32"
    using unsigned_less [of v, where 'a = nat] by simp
  then show ?thesis
    by (simp add: unsigned_ucast_eq take_bit_nat_eq_self)
qed

lemma unat_ucast_32_8: "unat (ucast (w :: uint32_t) :: uint8_t) = unat w mod 256"
  by (simp add: unsigned_ucast_eq take_bit_eq_mod)

lemma check_range_unat:
  "unat (check_range v) = (if unat v < 33 then unat v + 33 else unat v)"
proof (cases "unat v < 33")
  case True
  then have "unat ((ucast v :: uint32_t) + 33) = unat v + 33"
    by (simp add: unat_word_ariths unat_ucast_8_32)
  with True show ?thesis
    by (simp add: check_range_def ASCII_VISIBLE_CHARACTER_START_def word_less_nat_alt
        unat_ucast_8_32 unat_ucast_32_8)
next
  case False
  then show ?thesis
    by (simp add: check_range_def ASCII_VISIBLE_CHARACTER_START_def word_less_nat_alt
        unat_ucast_8_32)
qed

lemma check_range_eq: "check_range v = (if v < 33 then v + 33 else v)"
proof (cases "v < 33")
  case True
  then have u: "unat v < 33" by (simp add: word_less_nat_alt)
  then have "unat (v + 33) = unat v + 33"
    by (simp add: unat_word_ariths)
  with u have "unat (check_range v) = unat (v + 33)"
    by (simp add: check_range_unat)
  then have "check_range v = v + 33" by (simp only: word_unat_eq_iff)
  with True show ?thesis by simp
next
  case False
  then have "\<not> unat v < 33" by (simp add: word_less_nat_alt)
  then have "unat (check_range v) = unat v" by (simp add: check_range_unat)
  then have "check_range v = v" by (simp only: word_unat_eq_iff)
  with False show ?thesis by simp
qed

lemma check_range_ge: "33 \<le> unat (check_range v)"
  by (simp add: check_range_unat)

lemma candidate_byte_unat:
  "unat (candidate_byte w b) = (unat w div 2 ^ unat b) mod 128"
proof -
  have m: "(0x7F :: uint32_t) = mask 7" by (simp add: mask_eq_exp_minus_1)
  have "unat (drop_bit (unat b) w AND 0x7F) = (unat w div 2 ^ unat b) mod 128"
  proof -
    have "unat (drop_bit (unat b) w AND mask 7) = take_bit 7 (drop_bit (unat b) (unat w))"
      by (simp only: take_bit_eq_mask [symmetric] unsigned_take_bit_eq unat_drop_bit_eq)
    also have "\<dots> = (unat w div 2 ^ unat b) mod 128"
      by (simp add: take_bit_eq_mod drop_bit_eq_div)
    finally show ?thesis by (simp only: m)
  qed
  moreover have "(unat w div 2 ^ unat b) mod 128 mod 256 = (unat w div 2 ^ unat b) mod 128"
    by (simp add: mod_mod_cancel)
  ultimately show ?thesis
    by (simp add: candidate_byte_def ASCII_7BIT_MASK_def unat_ucast_32_8)
qed

lemma candidate_byte_le: "unat (candidate_byte w b) \<le> 127"
proof -
  have "(unat w div 2 ^ unat b) mod 128 < 128" by simp
  then show ?thesis by (simp add: candidate_byte_unat)
qed

section \<open>What the loops compute\<close>

text \<open>
  The defining equations of the loops are unfolded by hand, one turn at a time.
\<close>

declare generate_password_inner.simps [simp del]
declare generate_password_outer.simps [simp del]

lemma generate_password_inner_step:
  assumes "sint j < 4" "unat b < 32" "0 \<le> sint (index f)"
    "sint (index f) < int (length (password f))"
  shows "generate_password_inner w j b (s, f) =
    generate_password_inner w (j + 1) (b + 8)
      (s\<lparr>trace := trace s @ [Password_store (sint (index f)) (check_range (candidate_byte w b))]\<rparr>,
       f\<lparr>temp_value := check_range (candidate_byte w b),
         password := (password f)[nat (sint (index f)) := check_range (candidate_byte w b)],
         index := index f + 1\<rparr>)"
  using assms by (subst generate_password_inner.simps) (simp add: Let_def)

lemma generate_password_inner_stop:
  "\<not> sint j < 4 \<Longrightarrow> generate_password_inner w j b sf = Inr sf"
  by (cases sf) (simp add: generate_password_inner.simps)

lemma int8_add:
  "0 \<le> sint (i :: int8_t) \<Longrightarrow> sint i + 4 \<le> 127 \<Longrightarrow>
   sint (i + 1) = sint i + 1 \<and> sint (i + 2) = sint i + 2 \<and> sint (i + 3) = sint i + 3
   \<and> sint (i + 4) = sint i + 4"
  by (simp add: sint_word_ariths signed_take_bit_int_eq_self_iff)

lemma generate_password_inner_run:
  assumes i: "sint (index f) = i" "0 \<le> i" "i + 4 \<le> int (length (password f))"
    and l: "length (password f) \<le> 127"
  shows "generate_password_inner w 0 0 (s, f) =
    Inr (s\<lparr>trace := trace s @
           [Password_store i (check_range (candidate_byte w 0)),
            Password_store (i + 1) (check_range (candidate_byte w 8)),
            Password_store (i + 2) (check_range (candidate_byte w 16)),
            Password_store (i + 3) (check_range (candidate_byte w 24))]\<rparr>,
         f\<lparr>temp_value := check_range (candidate_byte w 24),
           password := (password f)
             [nat i := check_range (candidate_byte w 0),
              nat (i + 1) := check_range (candidate_byte w 8),
              nat (i + 2) := check_range (candidate_byte w 16),
              nat (i + 3) := check_range (candidate_byte w 24)],
           index := index f + 4\<rparr>)"
proof -
  from i l have s: "sint (index f + 1) = i + 1" "sint (index f + 2) = i + 2"
    "sint (index f + 3) = i + 3"
    using int8_add [of "index f"] by simp_all
  from s have s': "sint (1 + index f) = i + 1" "sint (2 + index f) = i + 2"
    "sint (3 + index f) = i + 3"
    by (simp_all add: add.commute)
  show ?thesis
    using i l
    by (simp add: generate_password_inner_step generate_password_inner_stop s s')
qed

lemma password_initial:
  "replicate (unat (PASSWORD_LENGTH + 1)) (0 :: uint8_t) = [0, 0, 0, 0, 0, 0, 0, 0, 0]"
proof -
  have "unat (PASSWORD_LENGTH + 1) = 9" by (simp add: PASSWORD_LENGTH_def)
  then show ?thesis by (simp add: eval_nat_numeral)
qed

lemma generate_password_outer_run:
  fixes hw s
  defines "w0 \<equiv> trng_words hw (trng_draws s)"
    and "w1 \<equiv> trng_words hw (Suc (trng_draws s))"
  shows "generate_password_outer hw
      (s, \<lparr>index = 0, temp_value = 0, password = replicate (unat (PASSWORD_LENGTH + 1)) 0\<rparr>) =
    Inr (s\<lparr>trng_draws := Suc (Suc (trng_draws s)),
           trace := trace s @
             [Trng_generate w0,
              Password_store 0 (check_range (candidate_byte w0 0)),
              Password_store 1 (check_range (candidate_byte w0 8)),
              Password_store 2 (check_range (candidate_byte w0 16)),
              Password_store 3 (check_range (candidate_byte w0 24)),
              Trng_generate w1,
              Password_store 4 (check_range (candidate_byte w1 0)),
              Password_store 5 (check_range (candidate_byte w1 8)),
              Password_store 6 (check_range (candidate_byte w1 16)),
              Password_store 7 (check_range (candidate_byte w1 24))]\<rparr>,
         \<lparr>index = 8, temp_value = check_range (candidate_byte w1 24),
          password =
            [check_range (candidate_byte w0 0), check_range (candidate_byte w0 8),
             check_range (candidate_byte w0 16), check_range (candidate_byte w0 24),
             check_range (candidate_byte w1 0), check_range (candidate_byte w1 8),
             check_range (candidate_byte w1 16), check_range (candidate_byte w1 24), 0]\<rparr>)"
proof -
  let ?f0 = "\<lparr>index = 0, temp_value = 0, password = [0, 0, 0, 0, 0, 0, 0, 0, 0 :: uint8_t]\<rparr>"
  let ?s0 = "s\<lparr>trng_draws := Suc (trng_draws s), trace := trace s @ [Trng_generate w0]\<rparr>"
  have r0: "generate_password_inner w0 0 0 (?s0, ?f0) =
    Inr (?s0\<lparr>trace := trace ?s0 @
           [Password_store 0 (check_range (candidate_byte w0 0)),
            Password_store (0 + 1) (check_range (candidate_byte w0 8)),
            Password_store (0 + 2) (check_range (candidate_byte w0 16)),
            Password_store (0 + 3) (check_range (candidate_byte w0 24))]\<rparr>,
         ?f0\<lparr>temp_value := check_range (candidate_byte w0 24),
           password := (password ?f0)
             [nat 0 := check_range (candidate_byte w0 0),
              nat (0 + 1) := check_range (candidate_byte w0 8),
              nat (0 + 2) := check_range (candidate_byte w0 16),
              nat (0 + 3) := check_range (candidate_byte w0 24)],
           index := index ?f0 + 4\<rparr>)" (is "_ = Inr (?s1, ?f1)")
    by (rule generate_password_inner_run) simp_all
  let ?s2 = "?s1\<lparr>trng_draws := Suc (trng_draws ?s1), trace := trace ?s1 @ [Trng_generate w1]\<rparr>"
  have r1: "generate_password_inner w1 0 0 (?s2, ?f1) =
    Inr (?s2\<lparr>trace := trace ?s2 @
           [Password_store 4 (check_range (candidate_byte w1 0)),
            Password_store (4 + 1) (check_range (candidate_byte w1 8)),
            Password_store (4 + 2) (check_range (candidate_byte w1 16)),
            Password_store (4 + 3) (check_range (candidate_byte w1 24))]\<rparr>,
         ?f1\<lparr>temp_value := check_range (candidate_byte w1 24),
           password := (password ?f1)
             [nat 4 := check_range (candidate_byte w1 0),
              nat (4 + 1) := check_range (candidate_byte w1 8),
              nat (4 + 2) := check_range (candidate_byte w1 16),
              nat (4 + 3) := check_range (candidate_byte w1 24)],
           index := index ?f1 + 4\<rparr>)" (is "_ = Inr (?s3, ?f3)")
    by (rule generate_password_inner_run) simp_all
  have c0: "(scast (index ?f0) :: uint32_t) < PASSWORD_LENGTH"
    and c1: "(scast (index ?f1) :: uint32_t) < PASSWORD_LENGTH"
    and c3: "\<not> (scast (index ?f3) :: uint32_t) < PASSWORD_LENGTH"
    by (simp_all add: PASSWORD_LENGTH_def)
  have w1: "trng_words hw (trng_draws ?s1) = w1" by (simp add: w1_def)
  have "generate_password_outer hw (s, ?f0) = generate_password_outer hw (?s1, ?f1)"
    using c0 r0 by (subst generate_password_outer.simps) (simp add: Let_def w0_def)
  also have "\<dots> = generate_password_outer hw (?s3, ?f3)"
    using c1 r1 w1 by (subst generate_password_outer.simps) (simp add: Let_def)
  also have "\<dots> = Inr (?s3, ?f3)"
    using c3 by (subst generate_password_outer.simps) simp
  finally show ?thesis
    by (simp add: password_initial eval_nat_numeral)
qed

lemma check_range_nonzero: "check_range v \<noteq> 0"
proof
  assume "check_range v = 0"
  then have "unat (check_range v) = 0" by simp
  with check_range_ge [of v] show False by simp
qed

lemma generate_password_fail:
  assumes "trng_init_rslt hw (trng_inits s) \<noteq> CY_RSLT_SUCCESS"
  shows "generate_password hw s =
    Inr (s\<lparr>trng_inits := Suc (trng_inits s),
           trace := trace s @ [Trng_init (trng_init_rslt hw (trng_inits s))]\<rparr>)"
  using assms by (simp add: generate_password_def Let_def)

lemma generate_password_run:
  fixes hw s
  defines "w0 \<equiv> trng_words hw (trng_draws s)"
    and "w1 \<equiv> trng_words hw (Suc (trng_draws s))"
  assumes ok: "trng_init_rslt hw (trng_inits s) = CY_RSLT_SUCCESS"
  shows "generate_password hw s =
    Inr (s\<lparr>trng_inits := Suc (trng_inits s),
           trng_draws := Suc (Suc (trng_draws s)),
           trace := trace s @
             [Trng_init CY_RSLT_SUCCESS,
              Trng_generate w0,
              Password_store 0 (check_range (candidate_byte w0 0)),
              Password_store 1 (check_range (candidate_byte w0 8)),
              Password_store 2 (check_range (candidate_byte w0 16)),
              Password_store 3 (check_range (candidate_byte w0 24)),
              Trng_generate w1,
              Password_store 4 (check_range (candidate_byte w1 0)),
              Password_store 5 (check_range (candidate_byte w1 8)),
              Password_store 6 (check_range (candidate_byte w1 16)),
              Password_store 7 (check_range (candidate_byte w1 24)),
              Password_store 8 0,
              Printf (bytes ''One-Time Password: '' @
                [check_range (candidate_byte w0 0), check_range (candidate_byte w0 8),
                 check_range (candidate_byte w0 16), check_range (candidate_byte w0 24),
                 check_range (candidate_byte w1 0), check_range (candidate_byte w1 8),
                 check_range (candidate_byte w1 16), check_range (candidate_byte w1 24)]
                @ CRLF @ [0x0A]),
              Printf (bytes ''Press the Enter key to generate new password'' @ CRLF),
              Printf SCREEN_HEADER1,
              Trng_free]\<rparr>)"
proof -
  let ?s1 = "s\<lparr>trng_inits := Suc (trng_inits s),
                trace := trace s @ [Trng_init CY_RSLT_SUCCESS]\<rparr>"
  show ?thesis
    unfolding generate_password_def Let_def ok
    by (simp add: generate_password_outer_run [of hw ?s1] w0_def w1_def check_range_nonzero)
qed

section \<open>Runs of generate\_password and of the main loop\<close>

lemma trng_held_snoc_free: "\<not> trng_held (xs @ [Trng_free])"
  by (simp add: trng_held_def)

lemma trng_held_snoc_fail:
  "r \<noteq> CY_RSLT_SUCCESS \<Longrightarrow> trng_held (xs @ [Trng_init r]) = trng_held xs"
  by (simp add: trng_held_def)

lemma trng_held_snoc_getc: "trng_held (xs @ [Uart_getc r c]) = trng_held xs"
  by (simp add: trng_held_def)

lemma generate_password_total: "\<exists>s'. generate_password hw s = Inr s'"
proof (cases "trng_init_rslt hw (trng_inits s) = CY_RSLT_SUCCESS")
  case True
  then show ?thesis by (simp add: generate_password_run)
next
  case False
  then show ?thesis by (simp add: generate_password_fail)
qed

lemma generate_password_begins:
  assumes "generate_password hw s = Inr s'"
  shows "\<exists>rest. trace s' = trace s @ Trng_init (trng_init_rslt hw (trng_inits s)) # rest"
    and "trng_inits s' = Suc (trng_inits s)" and "uart_reads s' = uart_reads s"
proof (atomize (full), cases "trng_init_rslt hw (trng_inits s) = CY_RSLT_SUCCESS")
  case True
  with assms show "(\<exists>rest. trace s' = trace s @ Trng_init (trng_init_rslt hw (trng_inits s)) # rest)
     \<and> trng_inits s' = Suc (trng_inits s) \<and> uart_reads s' = uart_reads s"
    by (auto simp add: generate_password_run)
next
  case False
  with assms show "(\<exists>rest. trace s' = trace s @ Trng_init (trng_init_rslt hw (trng_inits s)) # rest)
     \<and> trng_inits s' = Suc (trng_inits s) \<and> uart_reads s' = uart_reads s"
    by (auto simp add: generate_password_fail)
qed

lemma generate_password_not_held:
  assumes "generate_password hw s = Inr s'" "\<not> trng_held (trace s)"
  shows "\<not> trng_held (trace s')"
proof (cases "trng_init_rslt hw (trng_inits s) = CY_RSLT_SUCCESS")
  case True
  with assms(1) show ?thesis
    by (auto simp add: generate_password_run trng_held_def)
next
  case False
  with assms show ?thesis
    by (auto simp add: generate_password_fail trng_held_snoc_fail)
qed

lemma main_iteration_cases:
  "main_iteration hw s =
    (let s1 = s\<lparr>uart_read_value :=
                   (if fst (uart_rx hw (uart_reads s)) = CY_RSLT_SUCCESS
                    then snd (uart_rx hw (uart_reads s)) else uart_read_value s),
                 uart_reads := Suc (uart_reads s),
                 trace := trace s @
                   [Uart_getc (fst (uart_rx hw (uart_reads s))) (snd (uart_rx hw (uart_reads s)))]\<rparr>
     in if uart_rx hw (uart_reads s) = (CY_RSLT_SUCCESS, ASCII_RETURN_CARRIAGE)
        then generate_password hw s1 else Inr s1)"
  by (cases "uart_rx hw (uart_reads s)") (simp add: main_iteration_def Let_def)

lemma main_iteration_not_held:
  assumes "\<not> trng_held (trace s)"
  shows "\<exists>s'. main_iteration hw s = Inr s' \<and> \<not> trng_held (trace s')"
proof -
  let ?s1 = "s\<lparr>uart_read_value :=
                   (if fst (uart_rx hw (uart_reads s)) = CY_RSLT_SUCCESS
                    then snd (uart_rx hw (uart_reads s)) else uart_read_value s),
                 uart_reads := Suc (uart_reads s),
                 trace := trace s @
                   [Uart_getc (fst (uart_rx hw (uart_reads s))) (snd (uart_rx hw (uart_reads s)))]\<rparr>"
  have h: "\<not> trng_held (trace ?s1)" using assms by (simp add: trng_held_snoc_getc)
  show ?thesis
  proof (cases "uart_rx hw (uart_reads s) = (CY_RSLT_SUCCESS, ASCII_RETURN_CARRIAGE)")
    case True
    obtain s' where s': "generate_password hw ?s1 = Inr s'"
      using generate_password_total by blast
    from s' h have "\<not> trng_held (trace s')" by (rule generate_password_not_held)
    with True s' show ?thesis by (simp add: main_iteration_cases Let_def)
  next
    case False
    with h show ?thesis by (simp add: main_iteration_cases Let_def)
  qed
qed

lemma main_loop_not_held:
  "\<not> trng_held (trace s) \<Longrightarrow> \<exists>s'. main_loop n hw s = Inr s' \<and> \<not> trng_held (trace s')"
proof (induction n arbitrary: s)
  case 0
  then show ?case by simp
next
  case (Suc n)
  from main_iteration_not_held [OF Suc.prems, of hw]
  obtain s1 where s1: "main_iteration hw s = Inr s1" "\<not> trng_held (trace s1)" by blast
  from Suc.IH [OF s1(2)] s1(1) show ?case by simp
qed

lemma main_iteration_total: "\<exists>s'. main_iteration hw s = Inr s'"
proof (cases "uart_rx hw (uart_reads s) = (CY_RSLT_SUCCESS, ASCII_RETURN_CARRIAGE)")
  case True
  then show ?thesis
    by (simp add: main_iteration_cases Let_def generate_password_total)
next
  case False
  then show ?thesis by (simp add: main_iteration_cases Let_def)
qed

lemma main_loop_total: "\<exists>t. main_loop n hw s = Inr t"
proof (induction n arbitrary: s)
  case 0
  show ?case by simp
next
  case (Suc n)
  obtain s1 where "main_iteration hw s = Inr s1"
    using main_iteration_total by blast
  with Suc.IH [of s1] show ?case by simp
qed

lemma main_iteration_cr:
  assumes "uart_rx hw (uart_reads s) = (CY_RSLT_SUCCESS, 0x0D)"
  shows "\<exists>s' rest. main_iteration hw s = Inr s' \<and>
    trace s' = trace s @ Uart_getc CY_RSLT_SUCCESS 0x0D
      # Trng_init (trng_init_rslt hw (trng_inits s)) # rest"
proof -
  let ?s1 = "s\<lparr>uart_read_value := 0x0D, uart_reads := Suc (uart_reads s),
               trace := trace s @ [Uart_getc CY_RSLT_SUCCESS 0x0D]\<rparr>"
  obtain s' where s': "generate_password hw ?s1 = Inr s'"
    using generate_password_total by blast
  from generate_password_begins(1) [OF s']
  obtain rest where "trace s' = trace ?s1 @ Trng_init (trng_init_rslt hw (trng_inits ?s1)) # rest"
    by blast
  with s' assms show ?thesis
    by (simp add: main_iteration_cases ASCII_RETURN_CARRIAGE_def)
qed

lemma main_loop_snoc:
  "main_loop (Suc n) hw s =
     (case main_loop n hw s of Inl e \<Rightarrow> Inl e | Inr t \<Rightarrow> main_iteration hw t)"
proof (induction n arbitrary: s)
  case 0
  show ?case by (simp split: sum.splits)
next
  case (Suc n)
  show ?case
  proof (cases "main_iteration hw s")
    case (Inl e)
    then show ?thesis by simp
  next
    case (Inr s1)
    have "main_loop (Suc (Suc n)) hw s = main_loop (Suc n) hw s1"
      using Inr by simp
    also have "\<dots> = (case main_loop n hw s1 of Inl e \<Rightarrow> Inl e | Inr t \<Rightarrow> main_iteration hw t)"
      by (rule Suc.IH)
    also have "main_loop n hw s1 = main_loop (Suc n) hw s"
      using Inr by simp
    finally show ?thesis .
  qed
qed

lemma main_iteration_uart_reads:
  assumes "main_iteration hw s = Inr s'"
  shows "uart_reads s' = Suc (uart_reads s)"
proof (cases "uart_rx hw (uart_reads s) = (CY_RSLT_SUCCESS, ASCII_RETURN_CARRIAGE)")
  case True
  with assms generate_password_begins(3) show ?thesis
    by (fastforce simp add: main_iteration_cases Let_def)
next
  case False
  with assms show ?thesis by (auto simp add: main_iteration_cases Let_def)
qed

lemma main_loop_uart_reads:
  "main_loop n hw s = Inr t \<Longrightarrow> uart_reads t = uart_reads s + n"
proof (induction n arbitrary: s)
  case 0
  then show ?case by simp
next
  case (Suc n)
  obtain s1 where s1: "main_iteration hw s = Inr s1"
    using main_iteration_total by blast
  with Suc.prems have "main_loop n hw s1 = Inr t" by simp
  then have "uart_reads t = uart_reads s1 + n" by (rule Suc.IH)
  with main_iteration_uart_reads [OF s1] show ?case by simp
qed

lemma main_iteration_cr_prints:
  assumes "uart_rx hw (uart_reads t) = (CY_RSLT_SUCCESS, 0x0D)"
    and "trng_init_rslt hw (trng_inits t) = CY_RSLT_SUCCESS"
    and "main_iteration hw t = Inr t'"
  shows "length (printed (trace t')) = length (printed (trace t)) + 3"
  using assms
  by (auto simp add: main_iteration_cases ASCII_RETURN_CARRIAGE_def generate_password_run
      printed_def)

lemma generate_password_character:
  assumes ok: "trng_init_rslt hw (trng_inits s) = CY_RSLT_SUCCESS" and k: "k < 8"
  shows "\<exists>t. generate_password hw s = Inr t \<and>
    stores_of (trace t) ! (length (stores_of (trace s)) + k) =
      (int k, check_range (candidate_byte (trng_words hw (trng_draws s + k div 4))
                             (of_nat (8 * (k mod 4)))))"
proof -
  from k have "k = 0 \<or> k = 1 \<or> k = 2 \<or> k = 3 \<or> k = 4 \<or> k = 5 \<or> k = 6 \<or> k = 7"
    by arith
  then show ?thesis
    using ok
    by (elim disjE) (simp_all add: generate_password_run stores_of_def nth_append)
qed

section \<open>The range correction\<close>

text \<open>
  C1. On a candidate byte \<open>v\<close> between 0 and 127, \<open>check_range\<close> answers \<open>v + 33\<close>
  (with no wrap-around) when \<open>v < 33\<close> and \<open>v\<close> itself otherwise; at the boundary
  values 0, 32, 33, 126 and 127 it answers 33, 65, 33, 126 and 127.
\<close>

theorem check_range_7bit:
  "v \<le> 127 \<Longrightarrow>
     check_range v = (if v < 33 then v + 33 else v) \<and>
     unat (check_range v) = (if unat v < 33 then unat v + 33 else unat v) \<and>
     check_range 0 = 33 \<and> check_range 32 = 65 \<and> check_range 33 = 33 \<and>
     check_range 126 = 126 \<and> check_range 127 = 127"
  by (simp add: check_range_unat) (simp add: check_range_eq)

theorem check_range_7bit_witness:
  "(32 :: uint8_t) \<le> 127 \<and> check_range 32 = 65 \<and> unat (check_range 32) = 65 \<and>
   (100 :: uint8_t) \<le> 127 \<and> check_range 100 = 100 \<and> unat (check_range 100) = 100"
  using check_range_7bit [of 32] check_range_7bit [of 100] by simp

text \<open>
  C10. On the seven-bit values the correction of this revision and the one of the
  earlier revision give the same byte except at 127, where this revision keeps 127
  and the earlier one answers 94.
\<close>

theorem check_range_versus_earlier:
  "v \<le> 127 \<Longrightarrow>
     (check_range v = range_correction_earlier (ucast v)) = (v \<noteq> 127) \<and>
     check_range 127 = 127 \<and> range_correction_earlier (ucast (127 :: uint8_t)) = 94"
proof -
  assume le: "v \<le> 127"
  then have u: "unat v \<le> 127" by (simp add: word_le_nat_alt)
  have e: "unat (range_correction_earlier (ucast v)) =
      (if unat v < 33 then unat v + 33 else if 127 \<le> unat v then 94 else unat v)"
  proof -
    have a: "unat v < 33 \<Longrightarrow> unat ((ucast v :: uint32_t) + 33) = unat v + 33"
      by (simp add: unat_word_ariths unat_ucast_8_32)
    have b: "127 \<le> unat v \<Longrightarrow> (ucast v :: uint32_t) = 127"
      using u by (simp add: word_unat_eq_iff unat_ucast_8_32)
    show ?thesis
      using u
      by (auto simp add: range_correction_earlier_def ASCII_ALPHANUMERIC_LOWER_LIMIT_def
          ASCII_ALPHANUMERIC_UPPER_LIMIT_def word_less_nat_alt word_le_nat_alt
          unat_ucast_8_32 unat_ucast_32_8 a b)
  qed
  have "(check_range v = range_correction_earlier (ucast v)) = (v \<noteq> 127)"
    using u by (auto simp add: word_unat_eq_iff e check_range_unat)
  moreover have "check_range 127 = 127" by (simp add: check_range_eq)
  moreover have "range_correction_earlier (ucast (127 :: uint8_t)) = 94"
    by (simp add: range_correction_earlier_def ASCII_ALPHANUMERIC_LOWER_LIMIT_def
        ASCII_ALPHANUMERIC_UPPER_LIMIT_def)
  ultimately show ?thesis by simp
qed

theorem check_range_versus_earlier_witness:
  "(126 :: uint8_t) \<le> 127 \<and> check_range 126 = range_correction_earlier (ucast (126 :: uint8_t))
   \<and> (127 :: uint8_t) \<le> 127 \<and> check_range 127 \<noteq> range_correction_earlier (ucast (127 :: uint8_t))"
  using check_range_versus_earlier [of 126] check_range_versus_earlier [of 127] by simp

section \<open>One word, four characters\<close>

text \<open>
  C5. From one 32-bit word the inner loop takes exactly four candidate bytes, at the
  bit offsets 0, 8, 16 and 24, and stores the corrected byte of each at four
  consecutive indices. Each candidate byte is the word shifted right by the offset
  and masked with \<open>0x7F\<close>, a value between 0 and 127. The frame is any one whose
  index leaves room for four stores, as both frames of a generation do.
\<close>

theorem four_candidate_bytes_per_word:
  assumes "sint (index f) = i" "0 \<le> i" "i + 4 \<le> int (length (password f))"
    "length (password f) \<le> 127"
  shows "generate_password_inner w 0 0 (s, f) =
    Inr (s\<lparr>trace := trace s @
           [Password_store i (check_range (candidate_byte w 0)),
            Password_store (i + 1) (check_range (candidate_byte w 8)),
            Password_store (i + 2) (check_range (candidate_byte w 16)),
            Password_store (i + 3) (check_range (candidate_byte w 24))]\<rparr>,
         f\<lparr>temp_value := check_range (candidate_byte w 24),
           password := (password f)
             [nat i := check_range (candidate_byte w 0),
              nat (i + 1) := check_range (candidate_byte w 8),
              nat (i + 2) := check_range (candidate_byte w 16),
              nat (i + 3) := check_range (candidate_byte w 24)],
           index := index f + 4\<rparr>) \<and>
    (\<forall>b \<in> {0, 8, 16, 24}.
       candidate_byte w b = ucast (drop_bit (unat b) w AND 0x7F) \<and>
       unat (candidate_byte w b) = unat w div 2 ^ unat b mod 128 \<and>
       unat (candidate_byte w b) \<le> 127)"
  using assms
  by (simp add: generate_password_inner_run candidate_byte_le)
     (simp add: candidate_byte_unat, simp add: candidate_byte_def ASCII_7BIT_MASK_def)

theorem four_candidate_bytes_per_word_witness:
  "sint (index \<lparr>index = 4, temp_value = 51, password = [120, 86, 52, 51, 0, 0, 0, 0, 0]\<rparr>) = 4 \<and>
   generate_password_inner 0x12345678 0 0
     (\<lparr>uart_read_value = 0x0D, uart_reads = 1, trng_inits = 1, trng_draws = 2, trace = []\<rparr>,
      \<lparr>index = 4, temp_value = 51, password = [120, 86, 52, 51, 0, 0, 0, 0, 0]\<rparr>) =
   Inr (\<lparr>uart_read_value = 0x0D, uart_reads = 1, trng_inits = 1, trng_draws = 2,
         trace = [Password_store 4 120, Password_store 5 86, Password_store 6 52,
                  Password_store 7 51]\<rparr>,
        \<lparr>index = 8, temp_value = 51, password = [120, 86, 52, 51, 120, 86, 52, 51, 0]\<rparr>)"
proof -
  have c: "candidate_byte 0x12345678 0 = 120" "candidate_byte 0x12345678 8 = 86"
    "candidate_byte 0x12345678 16 = 52" "candidate_byte 0x12345678 24 = 18"
    by (simp_all add: candidate_byte_def ASCII_7BIT_MASK_def)
  have r: "check_range 120 = 120" "check_range 86 = 86" "check_range 52 = 52"
    "check_range 18 = 51"
    by (simp_all add: check_range_eq)
  show ?thesis
    using four_candidate_bytes_per_word
      [of "\<lparr>index = 4, temp_value = 51, password = [120, 86, 52, 51, 0, 0, 0, 0, 0]\<rparr>" 4
          "0x12345678"
          "\<lparr>uart_read_value = 0x0D, uart_reads = 1, trng_inits = 1, trng_draws = 2, trace = []\<rparr>",
        THEN conjunct1]
    by (simp add: c r eval_nat_numeral)
qed

section \<open>The password\<close>

text \<open>
  C2. The characters of a password are meant to lie between 33 and 126. With a TRNG
  that answers \<open>0x0000007F\<close> the function stores and prints the byte 127 (DEL) as
  the first and the fifth character.
\<close>

theorem generate_password_emits_del:
  "generate_password
     \<lparr>uart_rx = (\<lambda>n. (CY_RSLT_SUCCESS, 0x0D)), trng_init_rslt = (\<lambda>n. CY_RSLT_SUCCESS),
      trng_words = (\<lambda>n. 0x0000007F)\<rparr>
     \<lparr>uart_read_value = 0x0D, uart_reads = 1, trng_inits = 0, trng_draws = 0, trace = []\<rparr> =
   Inr \<lparr>uart_read_value = 0x0D, uart_reads = 1, trng_inits = 1, trng_draws = 2,
        trace =
          [Trng_init CY_RSLT_SUCCESS,
           Trng_generate 0x7F,
           Password_store 0 127, Password_store 1 33, Password_store 2 33, Password_store 3 33,
           Trng_generate 0x7F,
           Password_store 4 127, Password_store 5 33, Password_store 6 33, Password_store 7 33,
           Password_store 8 0,
           Printf (bytes ''One-Time Password: '' @ [127, 33, 33, 33, 127, 33, 33, 33]
                   @ CRLF @ [0x0A]),
           Printf (bytes ''Press the Enter key to generate new password'' @ CRLF),
           Printf SCREEN_HEADER1,
           Trng_free]\<rparr>"
proof -
  have c: "candidate_byte 0x7F 0 = 127" "candidate_byte 0x7F 8 = 0"
    "candidate_byte 0x7F 16 = 0" "candidate_byte 0x7F 24 = 0"
    by (simp_all add: candidate_byte_def ASCII_7BIT_MASK_def)
  have r: "check_range 127 = 127" "check_range 0 = 33"
    by (simp_all add: check_range_eq)
  show ?thesis
    by (simp add: generate_password_run c r)
qed

text \<open>
  C3. Whatever words the TRNG answers, a call of \<open>generate_password\<close> whose
  \<^verbatim>\<open>cyhal_trng_init\<close> succeeds returns normally and prints a password \<open>pw\<close> of
  exactly eight bytes, none of them zero: the eight bytes stored at the indices 0
  to 7, with the terminator stored at index 8, right after the eighth.
\<close>

theorem generate_password_length:
  assumes "trng_init_rslt hw (trng_inits s) = CY_RSLT_SUCCESS"
  shows "\<exists>s' pw. generate_password hw s = Inr s' \<and> length pw = 8 \<and> 0 \<notin> set pw \<and>
    c_string (pw @ [0]) = Some pw \<and>
    stores_of (trace s') =
      stores_of (trace s) @ zip [0, 1, 2, 3, 4, 5, 6, 7] pw @ [(8, 0)] \<and>
    printed (trace s') = printed (trace s) @
      [bytes ''One-Time Password: '' @ pw @ CRLF @ [0x0A],
       bytes ''Press the Enter key to generate new password'' @ CRLF,
       SCREEN_HEADER1]"
proof -
  let ?w0 = "trng_words hw (trng_draws s)" and ?w1 = "trng_words hw (Suc (trng_draws s))"
  let ?pw = "[check_range (candidate_byte ?w0 0), check_range (candidate_byte ?w0 8),
              check_range (candidate_byte ?w0 16), check_range (candidate_byte ?w0 24),
              check_range (candidate_byte ?w1 0), check_range (candidate_byte ?w1 8),
              check_range (candidate_byte ?w1 16), check_range (candidate_byte ?w1 24)]"
  have n: "\<And>v. 0 \<noteq> check_range v" using check_range_nonzero by metis
  obtain s' where s': "generate_password hw s = Inr s'"
    using generate_password_total by blast
  have "length ?pw = 8" by simp
  moreover have "0 \<notin> set ?pw" by (simp add: n)
  moreover have "c_string (?pw @ [0]) = Some ?pw" by (simp add: check_range_nonzero)
  moreover have "stores_of (trace s') =
      stores_of (trace s) @ zip [0, 1, 2, 3, 4, 5, 6, 7] ?pw @ [(8, 0)]"
    using s' assms by (auto simp add: generate_password_run stores_of_def)
  moreover have "printed (trace s') = printed (trace s) @
      [bytes ''One-Time Password: '' @ ?pw @ CRLF @ [0x0A],
       bytes ''Press the Enter key to generate new password'' @ CRLF,
       SCREEN_HEADER1]"
    using s' assms by (auto simp add: generate_password_run printed_def)
  ultimately show ?thesis using s' by blast
qed

theorem generate_password_length_witness:
  "trng_init_rslt
     \<lparr>uart_rx = (\<lambda>n. (CY_RSLT_SUCCESS, 0x0D)), trng_init_rslt = (\<lambda>n. CY_RSLT_SUCCESS),
      trng_words = (\<lambda>n. 0x12345678)\<rparr>
     (trng_inits \<lparr>uart_read_value = 0x0D, uart_reads = 1, trng_inits = 0, trng_draws = 0,
                 trace = []\<rparr>) = CY_RSLT_SUCCESS \<and>
   (\<exists>s' pw. generate_password
       \<lparr>uart_rx = (\<lambda>n. (CY_RSLT_SUCCESS, 0x0D)), trng_init_rslt = (\<lambda>n. CY_RSLT_SUCCESS),
        trng_words = (\<lambda>n. 0x12345678)\<rparr>
       \<lparr>uart_read_value = 0x0D, uart_reads = 1, trng_inits = 0, trng_draws = 0,
        trace = []\<rparr> = Inr s' \<and> length pw = 8 \<and>
      printed (trace s') =
        [bytes ''One-Time Password: '' @ pw @ CRLF @ [0x0A],
         bytes ''Press the Enter key to generate new password'' @ CRLF,
         SCREEN_HEADER1])"
  using generate_password_length
    [of "\<lparr>uart_rx = (\<lambda>n. (CY_RSLT_SUCCESS, 0x0D)), trng_init_rslt = (\<lambda>n. CY_RSLT_SUCCESS),
          trng_words = (\<lambda>n. 0x12345678)\<rparr>"
        "\<lparr>uart_read_value = 0x0D, uart_reads = 1, trng_inits = 0, trng_draws = 0,
          trace = []\<rparr>"]
  by (simp add: printed_def) blast

text \<open>
  C7. During one call, whatever words the TRNG answers, the stores into
  \<^verbatim>\<open>password\<close> are nine: the characters at the indices 0, 1, ..., 7 in this order,
  four for each of the two words drawn, then the terminator at index 8. No
  character is stored above index 7.
\<close>

theorem password_store_indices:
  assumes "trng_init_rslt hw (trng_inits s) = CY_RSLT_SUCCESS"
  shows "\<exists>s'. generate_password hw s = Inr s' \<and>
    stores_of (trace s') = stores_of (trace s) @
      [(0, check_range (candidate_byte (trng_words hw (trng_draws s)) 0)),
       (1, check_range (candidate_byte (trng_words hw (trng_draws s)) 8)),
       (2, check_range (candidate_byte (trng_words hw (trng_draws s)) 16)),
       (3, check_range (candidate_byte (trng_words hw (trng_draws s)) 24)),
       (4, check_range (candidate_byte (trng_words hw (Suc (trng_draws s))) 0)),
       (5, check_range (candidate_byte (trng_words hw (Suc (trng_draws s))) 8)),
       (6, check_range (candidate_byte (trng_words hw (Suc (trng_draws s))) 16)),
       (7, check_range (candidate_byte (trng_words hw (Suc (trng_draws s))) 24)),
       (8, 0)] \<and>
    trng_draws s' = trng_draws s + 2"
  using assms by (simp add: generate_password_run stores_of_def)

theorem password_store_indices_witness:
  "trng_init_rslt
     \<lparr>uart_rx = (\<lambda>n. (CY_RSLT_SUCCESS, 0x0D)), trng_init_rslt = (\<lambda>n. CY_RSLT_SUCCESS),
      trng_words = (\<lambda>n. 0xFFFFFFFF)\<rparr>
     (trng_inits \<lparr>uart_read_value = 0x0D, uart_reads = 1, trng_inits = 0, trng_draws = 0,
                 trace = []\<rparr>) = CY_RSLT_SUCCESS \<and>
   (\<exists>s'. generate_password
       \<lparr>uart_rx = (\<lambda>n. (CY_RSLT_SUCCESS, 0x0D)), trng_init_rslt = (\<lambda>n. CY_RSLT_SUCCESS),
        trng_words = (\<lambda>n. 0xFFFFFFFF)\<rparr>
       \<lparr>uart_read_value = 0x0D, uart_reads = 1, trng_inits = 0, trng_draws = 0,
        trace = []\<rparr> = Inr s' \<and>
      map fst (stores_of (trace s')) = [0, 1, 2, 3, 4, 5, 6, 7, 8] \<and>
      snd (last (stores_of (trace s'))) = 0)"
  using password_store_indices
    [of "\<lparr>uart_rx = (\<lambda>n. (CY_RSLT_SUCCESS, 0x0D)), trng_init_rslt = (\<lambda>n. CY_RSLT_SUCCESS),
          trng_words = (\<lambda>n. 0xFFFFFFFF)\<rparr>"
        "\<lparr>uart_read_value = 0x0D, uart_reads = 1, trng_inits = 0, trng_draws = 0,
          trace = []\<rparr>"]
  by (auto simp add: stores_of_def)

text \<open>
  C9. The range correction is deterministic. Take any two calls of
  \<open>generate_password\<close>, with any hardware answers and any states, and any two of
  their character positions where the candidate byte is the same \<open>v\<close>: the
  character stored is the same, \<open>check_range v\<close>. It depends on nothing else:
  not on the position, the word, the earlier characters, the stale \<open>temp_value\<close>
  or the hardware. For every byte, \<open>check_range\<close> is the value written out here.
\<close>

theorem range_correction_deterministic:
  assumes "trng_init_rslt hw (trng_inits s) = CY_RSLT_SUCCESS"
    and "trng_init_rslt hw' (trng_inits s') = CY_RSLT_SUCCESS"
    and "k < 8" and "k' < 8"
    and "candidate_byte (trng_words hw (trng_draws s + k div 4)) (of_nat (8 * (k mod 4))) = v"
    and "candidate_byte (trng_words hw' (trng_draws s' + k' div 4)) (of_nat (8 * (k' mod 4))) = v"
  shows "\<exists>t t' c. generate_password hw s = Inr t \<and> generate_password hw' s' = Inr t' \<and>
    stores_of (trace t) ! (length (stores_of (trace s)) + k) = (int k, c) \<and>
    stores_of (trace t') ! (length (stores_of (trace s')) + k') = (int k', c) \<and>
    c = check_range v \<and>
    (\<forall>u. check_range u = (if u < 33 then u + 33 else u))"
proof -
  from generate_password_character [OF assms(1,3)] assms(5)
  obtain t where t: "generate_password hw s = Inr t"
    "stores_of (trace t) ! (length (stores_of (trace s)) + k) = (int k, check_range v)"
    by auto
  from generate_password_character [OF assms(2,4)] assms(6)
  obtain t' where t': "generate_password hw' s' = Inr t'"
    "stores_of (trace t') ! (length (stores_of (trace s')) + k') = (int k', check_range v)"
    by auto
  have "\<forall>u. check_range u = (if u < 33 then u + 33 else u)"
    using check_range_eq by blast
  with t t' show ?thesis by blast
qed

theorem range_correction_deterministic_witness:
  "trng_init_rslt
     \<lparr>uart_rx = (\<lambda>n. (CY_RSLT_SUCCESS, 0x0D)), trng_init_rslt = (\<lambda>n. CY_RSLT_SUCCESS),
      trng_words = (\<lambda>n. 0x12345678)\<rparr>
     (trng_inits \<lparr>uart_read_value = 0x0D, uart_reads = 1, trng_inits = 0, trng_draws = 0,
                 trace = []\<rparr>) = CY_RSLT_SUCCESS \<and>
   trng_init_rslt
     \<lparr>uart_rx = (\<lambda>n. (CY_RSLT_SUCCESS, 0x0D)), trng_init_rslt = (\<lambda>n. CY_RSLT_SUCCESS),
      trng_words = (\<lambda>n. if n = 3 then 0x00001200 else 0)\<rparr>
     (trng_inits \<lparr>uart_read_value = 0x0D, uart_reads = 5, trng_inits = 1, trng_draws = 2,
                 trace = [Password_store 0 33]\<rparr>) = CY_RSLT_SUCCESS \<and>
   (3 :: nat) < 8 \<and> (5 :: nat) < 8 \<and>
   candidate_byte 0x12345678 24 = 18 \<and> candidate_byte 0x00001200 8 = 18 \<and>
   (\<exists>t t'. generate_password
       \<lparr>uart_rx = (\<lambda>n. (CY_RSLT_SUCCESS, 0x0D)), trng_init_rslt = (\<lambda>n. CY_RSLT_SUCCESS),
        trng_words = (\<lambda>n. 0x12345678)\<rparr>
       \<lparr>uart_read_value = 0x0D, uart_reads = 1, trng_inits = 0, trng_draws = 0,
        trace = []\<rparr> = Inr t \<and>
     generate_password
       \<lparr>uart_rx = (\<lambda>n. (CY_RSLT_SUCCESS, 0x0D)), trng_init_rslt = (\<lambda>n. CY_RSLT_SUCCESS),
        trng_words = (\<lambda>n. if n = 3 then 0x00001200 else 0)\<rparr>
       \<lparr>uart_read_value = 0x0D, uart_reads = 5, trng_inits = 1, trng_draws = 2,
        trace = [Password_store 0 33]\<rparr> = Inr t' \<and>
     stores_of (trace t) ! 3 = (3, 51) \<and> stores_of (trace t') ! 6 = (5, 51))"
proof -
  let ?hw = "\<lparr>uart_rx = (\<lambda>n. (CY_RSLT_SUCCESS, 0x0D)), trng_init_rslt = (\<lambda>n. CY_RSLT_SUCCESS),
      trng_words = (\<lambda>n. 0x12345678)\<rparr>"
  let ?s = "\<lparr>uart_read_value = 0x0D, uart_reads = 1, trng_inits = 0, trng_draws = 0,
      trace = []\<rparr>"
  let ?hw' = "\<lparr>uart_rx = (\<lambda>n. (CY_RSLT_SUCCESS, 0x0D)), trng_init_rslt = (\<lambda>n. CY_RSLT_SUCCESS),
      trng_words = (\<lambda>n. if n = 3 then 0x00001200 else 0)\<rparr>"
  let ?s' = "\<lparr>uart_read_value = 0x0D, uart_reads = 5, trng_inits = 1, trng_draws = 2,
      trace = [Password_store 0 33]\<rparr>"
  have c: "candidate_byte 0x12345678 24 = 18" "candidate_byte 0x00001200 8 = 18"
    by (simp_all add: candidate_byte_def ASCII_7BIT_MASK_def)
  have r: "check_range 18 = 51" by (simp add: check_range_eq)
  have a: "trng_init_rslt ?hw (trng_inits ?s) = CY_RSLT_SUCCESS"
    "trng_init_rslt ?hw' (trng_inits ?s') = CY_RSLT_SUCCESS" by simp_all
  have k: "(3 :: nat) < 8" "(5 :: nat) < 8" by simp_all
  have v: "candidate_byte (trng_words ?hw (trng_draws ?s + 3 div 4)) (of_nat (8 * (3 mod 4))) = 18"
    "candidate_byte (trng_words ?hw' (trng_draws ?s' + 5 div 4)) (of_nat (8 * (5 mod 4))) = 18"
    by (simp_all add: c)
  from range_correction_deterministic [OF a k v]
  show ?thesis by (auto simp add: c r stores_of_def)
qed

section \<open>The TRNG handle\<close>

text \<open>
  C8. A call of \<open>generate_password\<close> that acquires the TRNG gives it back exactly
  once, as its last action, and acquires it only once. The handle is never held
  between two turns of the main loop: started with the handle free, the loop has
  it free again after any number of turns.
\<close>

theorem trng_handle_released:
  "(trng_init_rslt hw (trng_inits s) = CY_RSLT_SUCCESS \<longrightarrow>
      (\<exists>s' mid. generate_password hw s = Inr s' \<and>
         trace s' = trace s @ Trng_init CY_RSLT_SUCCESS # mid @ [Trng_free] \<and>
         Trng_free \<notin> set mid \<and> (\<forall>r. Trng_init r \<notin> set mid) \<and>
         \<not> trng_held (trace s'))) \<and>
   (\<not> trng_held (trace s) \<longrightarrow>
      (\<exists>s'. main_loop n hw s = Inr s' \<and> \<not> trng_held (trace s')))"
proof (intro conjI impI)
  assume ok: "trng_init_rslt hw (trng_inits s) = CY_RSLT_SUCCESS"
  let ?w0 = "trng_words hw (trng_draws s)" and ?w1 = "trng_words hw (Suc (trng_draws s))"
  let ?pw = "[check_range (candidate_byte ?w0 0), check_range (candidate_byte ?w0 8),
              check_range (candidate_byte ?w0 16), check_range (candidate_byte ?w0 24),
              check_range (candidate_byte ?w1 0), check_range (candidate_byte ?w1 8),
              check_range (candidate_byte ?w1 16), check_range (candidate_byte ?w1 24)]"
  let ?mid = "[Trng_generate ?w0,
              Password_store 0 (check_range (candidate_byte ?w0 0)),
              Password_store 1 (check_range (candidate_byte ?w0 8)),
              Password_store 2 (check_range (candidate_byte ?w0 16)),
              Password_store 3 (check_range (candidate_byte ?w0 24)),
              Trng_generate ?w1,
              Password_store 4 (check_range (candidate_byte ?w1 0)),
              Password_store 5 (check_range (candidate_byte ?w1 8)),
              Password_store 6 (check_range (candidate_byte ?w1 16)),
              Password_store 7 (check_range (candidate_byte ?w1 24)),
              Password_store 8 0,
              Printf (bytes ''One-Time Password: '' @ ?pw @ CRLF @ [0x0A]),
              Printf (bytes ''Press the Enter key to generate new password'' @ CRLF),
              Printf SCREEN_HEADER1]"
  obtain s' where s': "generate_password hw s = Inr s'"
    using generate_password_total by blast
  with ok have t: "trace s' = trace s @ Trng_init CY_RSLT_SUCCESS # ?mid @ [Trng_free]"
    by (auto simp add: generate_password_run)
  have "Trng_free \<notin> set ?mid" "\<forall>r. Trng_init r \<notin> set ?mid" by simp_all
  moreover have "\<not> trng_held (trace s')"
  proof -
    have "trace s' = (trace s @ Trng_init CY_RSLT_SUCCESS # ?mid) @ [Trng_free]"
      using t by simp
    then show ?thesis by (simp only: trng_held_snoc_free not_False_eq_True)
  qed
  ultimately show "\<exists>s' mid. generate_password hw s = Inr s' \<and>
         trace s' = trace s @ Trng_init CY_RSLT_SUCCESS # mid @ [Trng_free] \<and>
         Trng_free \<notin> set mid \<and> (\<forall>r. Trng_init r \<notin> set mid) \<and>
         \<not> trng_held (trace s')"
    using s' t by blast
next
  assume "\<not> trng_held (trace s)"
  then show "\<exists>s'. main_loop n hw s = Inr s' \<and> \<not> trng_held (trace s')"
    by (rule main_loop_not_held)
qed

theorem trng_handle_released_witness:
  "trng_init_rslt
     \<lparr>uart_rx = (\<lambda>n. (CY_RSLT_SUCCESS, 0x0D)), trng_init_rslt = (\<lambda>n. CY_RSLT_SUCCESS),
      trng_words = (\<lambda>n. 0x12345678)\<rparr>
     (trng_inits \<lparr>uart_read_value = 0, uart_reads = 0, trng_inits = 0, trng_draws = 0,
                 trace = []\<rparr>) = CY_RSLT_SUCCESS \<and>
   \<not> trng_held (trace \<lparr>uart_read_value = 0, uart_reads = 0, trng_inits = 0, trng_draws = 0,
                        trace = []\<rparr>) \<and>
   (\<exists>s' mid. generate_password
       \<lparr>uart_rx = (\<lambda>n. (CY_RSLT_SUCCESS, 0x0D)), trng_init_rslt = (\<lambda>n. CY_RSLT_SUCCESS),
        trng_words = (\<lambda>n. 0x12345678)\<rparr>
       \<lparr>uart_read_value = 0, uart_reads = 0, trng_inits = 0, trng_draws = 0, trace = []\<rparr>
       = Inr s' \<and>
      trace s' = Trng_init CY_RSLT_SUCCESS # mid @ [Trng_free] \<and> Trng_free \<notin> set mid) \<and>
   (\<exists>s'. main_loop 3
       \<lparr>uart_rx = (\<lambda>n. (CY_RSLT_SUCCESS, 0x0D)), trng_init_rslt = (\<lambda>n. CY_RSLT_SUCCESS),
        trng_words = (\<lambda>n. 0x12345678)\<rparr>
       \<lparr>uart_read_value = 0, uart_reads = 0, trng_inits = 0, trng_draws = 0, trace = []\<rparr>
       = Inr s' \<and> \<not> trng_held (trace s'))"
  using trng_handle_released
    [of "\<lparr>uart_rx = (\<lambda>n. (CY_RSLT_SUCCESS, 0x0D)), trng_init_rslt = (\<lambda>n. CY_RSLT_SUCCESS),
          trng_words = (\<lambda>n. 0x12345678)\<rparr>"
        "\<lparr>uart_read_value = 0, uart_reads = 0, trng_inits = 0, trng_draws = 0, trace = []\<rparr>"
        3]
  by (simp add: trng_held_def) blast

text \<open>
  C4. When the Enter key is read and \<^verbatim>\<open>cyhal_trng_init\<close> fails, the turn of the loop
  ends normally having only made these two HAL calls: nothing is printed, nothing
  is stored into the password and no word is drawn. The loop started in \<open>s\<close> goes
  on from there: after any number \<open>n\<close> of further turns it has read the UART
  \<open>n + 1\<close> times, and when the next byte is the Enter key the following turn of
  the loop asks for the TRNG again, and prints the three texts when it gets it.
\<close>

theorem trng_init_failure_no_output:
  assumes cr: "uart_rx hw (uart_reads s) = (CY_RSLT_SUCCESS, 0x0D)"
    and fail: "trng_init_rslt hw (trng_inits s) \<noteq> CY_RSLT_SUCCESS"
  shows "\<exists>s'. main_iteration hw s = Inr s' \<and>
    trace s' = trace s @
      [Uart_getc CY_RSLT_SUCCESS 0x0D, Trng_init (trng_init_rslt hw (trng_inits s))] \<and>
    printed (trace s') = printed (trace s) \<and>
    stores_of (trace s') = stores_of (trace s) \<and>
    trng_draws s' = trng_draws s \<and>
    (\<forall>n. \<exists>t. main_loop (Suc n) hw s = Inr t \<and> main_loop n hw s' = Inr t \<and>
       uart_reads t = uart_reads s + Suc n \<and>
       (uart_rx hw (uart_reads s + Suc n) = (CY_RSLT_SUCCESS, 0x0D) \<longrightarrow>
          (\<exists>t' rest. main_loop (Suc (Suc n)) hw s = Inr t' \<and>
             trace t' = trace t @ Uart_getc CY_RSLT_SUCCESS 0x0D
               # Trng_init (trng_init_rslt hw (trng_inits t)) # rest \<and>
             (trng_init_rslt hw (trng_inits t) = CY_RSLT_SUCCESS \<longrightarrow>
                length (printed (trace t')) = length (printed (trace t)) + 3))))"
proof -
  let ?s1 = "s\<lparr>uart_read_value := 0x0D, uart_reads := Suc (uart_reads s),
               trace := trace s @ [Uart_getc CY_RSLT_SUCCESS 0x0D]\<rparr>"
  let ?s' = "?s1\<lparr>trng_inits := Suc (trng_inits ?s1),
                 trace := trace ?s1 @ [Trng_init (trng_init_rslt hw (trng_inits ?s1))]\<rparr>"
  from fail have "generate_password hw ?s1 = Inr ?s'"
    by (intro generate_password_fail) simp
  with cr have it: "main_iteration hw s = Inr ?s'"
    by (simp add: main_iteration_cases ASCII_RETURN_CARRIAGE_def)
  have later: "\<exists>t. main_loop (Suc n) hw s = Inr t \<and> main_loop n hw ?s' = Inr t \<and>
       uart_reads t = uart_reads s + Suc n \<and>
       (uart_rx hw (uart_reads s + Suc n) = (CY_RSLT_SUCCESS, 0x0D) \<longrightarrow>
          (\<exists>t' rest. main_loop (Suc (Suc n)) hw s = Inr t' \<and>
             trace t' = trace t @ Uart_getc CY_RSLT_SUCCESS 0x0D
               # Trng_init (trng_init_rslt hw (trng_inits t)) # rest \<and>
             (trng_init_rslt hw (trng_inits t) = CY_RSLT_SUCCESS \<longrightarrow>
                length (printed (trace t')) = length (printed (trace t)) + 3)))" for n
  proof -
    obtain t where t: "main_loop (Suc n) hw s = Inr t"
      using main_loop_total by blast
    with it have t': "main_loop n hw ?s' = Inr t" by simp
    have r: "uart_reads t = uart_reads s + Suc n"
      using main_loop_uart_reads [OF t] .
    have next_turn: "main_loop (Suc (Suc n)) hw s = main_iteration hw t"
      using t by (simp only: main_loop_snoc [of "Suc n"] sum.case)
    have "\<exists>t' rest. main_loop (Suc (Suc n)) hw s = Inr t' \<and>
             trace t' = trace t @ Uart_getc CY_RSLT_SUCCESS 0x0D
               # Trng_init (trng_init_rslt hw (trng_inits t)) # rest \<and>
             (trng_init_rslt hw (trng_inits t) = CY_RSLT_SUCCESS \<longrightarrow>
                length (printed (trace t')) = length (printed (trace t)) + 3)"
      if press: "uart_rx hw (uart_reads s + Suc n) = (CY_RSLT_SUCCESS, 0x0D)"
    proof -
      from press r have p: "uart_rx hw (uart_reads t) = (CY_RSLT_SUCCESS, 0x0D)" by simp
      from main_iteration_cr [OF p] obtain t' rest where
        a: "main_iteration hw t = Inr t'" and
        b: "trace t' = trace t @ Uart_getc CY_RSLT_SUCCESS 0x0D
               # Trng_init (trng_init_rslt hw (trng_inits t)) # rest"
        by blast
      have "trng_init_rslt hw (trng_inits t) = CY_RSLT_SUCCESS \<longrightarrow>
                length (printed (trace t')) = length (printed (trace t)) + 3"
        using main_iteration_cr_prints [OF p _ a] by blast
      with a b next_turn show ?thesis by auto
    qed
    with t t' r show ?thesis by blast
  qed
  have "trace ?s' = trace s @
      [Uart_getc CY_RSLT_SUCCESS 0x0D, Trng_init (trng_init_rslt hw (trng_inits s))]"
    by simp
  moreover have "printed (trace ?s') = printed (trace s)"
    by (simp add: printed_def)
  moreover have "stores_of (trace ?s') = stores_of (trace s)"
    by (simp add: stores_of_def)
  moreover have "trng_draws ?s' = trng_draws s" by simp
  ultimately show ?thesis using it later by blast
qed

theorem trng_init_failure_no_output_witness:
  "uart_rx \<lparr>uart_rx = (\<lambda>n. (CY_RSLT_SUCCESS, 0x0D)),
            trng_init_rslt = (\<lambda>n. if n = 0 then CY_RSLT_ERROR 1 else CY_RSLT_SUCCESS),
            trng_words = (\<lambda>n. 0x12345678)\<rparr>
     (uart_reads \<lparr>uart_read_value = 0, uart_reads = 0, trng_inits = 0, trng_draws = 0,
                 trace = []\<rparr>) = (CY_RSLT_SUCCESS, 0x0D) \<and>
   trng_init_rslt \<lparr>uart_rx = (\<lambda>n. (CY_RSLT_SUCCESS, 0x0D)),
            trng_init_rslt = (\<lambda>n. if n = 0 then CY_RSLT_ERROR 1 else CY_RSLT_SUCCESS),
            trng_words = (\<lambda>n. 0x12345678)\<rparr>
     (trng_inits \<lparr>uart_read_value = 0, uart_reads = 0, trng_inits = 0, trng_draws = 0,
                 trace = []\<rparr>) \<noteq> CY_RSLT_SUCCESS \<and>
   (\<exists>s'. main_iteration
       \<lparr>uart_rx = (\<lambda>n. (CY_RSLT_SUCCESS, 0x0D)),
        trng_init_rslt = (\<lambda>n. if n = 0 then CY_RSLT_ERROR 1 else CY_RSLT_SUCCESS),
        trng_words = (\<lambda>n. 0x12345678)\<rparr>
       \<lparr>uart_read_value = 0, uart_reads = 0, trng_inits = 0, trng_draws = 0, trace = []\<rparr>
       = Inr s' \<and>
     trace s' = [Uart_getc CY_RSLT_SUCCESS 0x0D, Trng_init (CY_RSLT_ERROR 1)] \<and>
     printed (trace s') = [] \<and>
     (\<exists>t' rest. main_loop (Suc (Suc 0))
         \<lparr>uart_rx = (\<lambda>n. (CY_RSLT_SUCCESS, 0x0D)),
          trng_init_rslt = (\<lambda>n. if n = 0 then CY_RSLT_ERROR 1 else CY_RSLT_SUCCESS),
          trng_words = (\<lambda>n. 0x12345678)\<rparr>
         \<lparr>uart_read_value = 0, uart_reads = 0, trng_inits = 0, trng_draws = 0, trace = []\<rparr>
         = Inr t' \<and>
       trace t' = [Uart_getc CY_RSLT_SUCCESS 0x0D, Trng_init (CY_RSLT_ERROR 1),
                   Uart_getc CY_RSLT_SUCCESS 0x0D, Trng_init CY_RSLT_SUCCESS] @ rest \<and>
       length (printed (trace t')) = 3))"
proof -
  let ?hw = "\<lparr>uart_rx = (\<lambda>n. (CY_RSLT_SUCCESS, 0x0D)),
          trng_init_rslt = (\<lambda>n. if n = 0 then CY_RSLT_ERROR 1 else CY_RSLT_SUCCESS),
          trng_words = (\<lambda>n. 0x12345678)\<rparr>"
  let ?s = "\<lparr>uart_read_value = 0, uart_reads = 0, trng_inits = 0, trng_draws = 0, trace = []\<rparr>"
  have h1: "uart_rx ?hw (uart_reads ?s) = (CY_RSLT_SUCCESS, 0x0D)" by simp
  have h2: "trng_init_rslt ?hw (trng_inits ?s) \<noteq> CY_RSLT_SUCCESS" by simp
  from trng_init_failure_no_output [OF h1 h2]
  obtain s' where s': "main_iteration ?hw ?s = Inr s'"
    "trace s' = trace ?s @
      [Uart_getc CY_RSLT_SUCCESS 0x0D, Trng_init (trng_init_rslt ?hw (trng_inits ?s))]"
    "printed (trace s') = printed (trace ?s)"
    and loop: "\<And>n. \<exists>t. main_loop (Suc n) ?hw ?s = Inr t \<and> main_loop n ?hw s' = Inr t \<and>
       uart_reads t = uart_reads ?s + Suc n \<and>
       (uart_rx ?hw (uart_reads ?s + Suc n) = (CY_RSLT_SUCCESS, 0x0D) \<longrightarrow>
          (\<exists>t' rest. main_loop (Suc (Suc n)) ?hw ?s = Inr t' \<and>
             trace t' = trace t @ Uart_getc CY_RSLT_SUCCESS 0x0D
               # Trng_init (trng_init_rslt ?hw (trng_inits t)) # rest \<and>
             (trng_init_rslt ?hw (trng_inits t) = CY_RSLT_SUCCESS \<longrightarrow>
                length (printed (trace t')) = length (printed (trace t)) + 3)))"
    by blast
  from s'(1) have e: "s' = \<lparr>uart_read_value = 0x0D, uart_reads = 1, trng_inits = 1, trng_draws = 0,
      trace = [Uart_getc CY_RSLT_SUCCESS 0x0D, Trng_init (CY_RSLT_ERROR 1)]\<rparr>"
    by (simp add: main_iteration_cases ASCII_RETURN_CARRIAGE_def generate_password_fail)
  from loop [of 0] e obtain t' rest where
    "main_loop (Suc (Suc 0)) ?hw ?s = Inr t'"
    "trace t' = trace s' @ Uart_getc CY_RSLT_SUCCESS 0x0D # Trng_init CY_RSLT_SUCCESS # rest"
    "length (printed (trace t')) = length (printed (trace s')) + 3"
    by auto
  with s' e show ?thesis by (simp add: printed_def)
qed

section \<open>The input monitor\<close>

text \<open>
  C6. A turn of the loop that reads a byte successfully calls
  \<open>generate_password\<close> once when the byte is \<open>0x0D\<close>: the turn is that call, and
  \<^verbatim>\<open>cyhal_trng_init\<close> is asked exactly once. For any other byte the turn prints
  nothing and does not touch the TRNG. In both cases the turn ends normally and
  the next turn reads the UART again.
\<close>

theorem main_iteration_dispatch:
  assumes "uart_rx hw (uart_reads s) = (CY_RSLT_SUCCESS, b)"
  shows "(b = 0x0D \<longrightarrow>
      main_iteration hw s =
        generate_password hw
          (s\<lparr>uart_read_value := b, uart_reads := Suc (uart_reads s),
             trace := trace s @ [Uart_getc CY_RSLT_SUCCESS b]\<rparr>) \<and>
      (\<exists>s'. main_iteration hw s = Inr s' \<and> trng_inits s' = Suc (trng_inits s) \<and>
         uart_reads s' = Suc (uart_reads s))) \<and>
    (b \<noteq> 0x0D \<longrightarrow>
      main_iteration hw s =
        Inr (s\<lparr>uart_read_value := b, uart_reads := Suc (uart_reads s),
               trace := trace s @ [Uart_getc CY_RSLT_SUCCESS b]\<rparr>) \<and>
      (\<exists>s'. main_iteration hw s = Inr s' \<and> printed (trace s') = printed (trace s) \<and>
         trng_inits s' = trng_inits s \<and> uart_reads s' = Suc (uart_reads s)))"
proof (cases "b = 0x0D")
  case True
  let ?s1 = "s\<lparr>uart_read_value := b, uart_reads := Suc (uart_reads s),
               trace := trace s @ [Uart_getc CY_RSLT_SUCCESS b]\<rparr>"
  from True assms have m: "main_iteration hw s = generate_password hw ?s1"
    by (simp add: main_iteration_cases ASCII_RETURN_CARRIAGE_def)
  obtain s' where s': "generate_password hw ?s1 = Inr s'"
    using generate_password_total by blast
  from generate_password_begins(2,3) [OF s']
  have "trng_inits s' = Suc (trng_inits s)" "uart_reads s' = Suc (uart_reads s)"
    by simp_all
  with m s' True show ?thesis by simp
next
  case False
  with assms show ?thesis
    by (simp add: main_iteration_cases ASCII_RETURN_CARRIAGE_def printed_def)
qed

theorem main_iteration_dispatch_witness:
  "uart_rx \<lparr>uart_rx = (\<lambda>n. (CY_RSLT_SUCCESS, 0x41)), trng_init_rslt = (\<lambda>n. CY_RSLT_SUCCESS),
            trng_words = (\<lambda>n. 0x12345678)\<rparr>
     (uart_reads \<lparr>uart_read_value = 0, uart_reads = 0, trng_inits = 0, trng_draws = 0,
                 trace = []\<rparr>) = (CY_RSLT_SUCCESS, 0x41) \<and>
   main_iteration
     \<lparr>uart_rx = (\<lambda>n. (CY_RSLT_SUCCESS, 0x41)), trng_init_rslt = (\<lambda>n. CY_RSLT_SUCCESS),
      trng_words = (\<lambda>n. 0x12345678)\<rparr>
     \<lparr>uart_read_value = 0, uart_reads = 0, trng_inits = 0, trng_draws = 0, trace = []\<rparr> =
   Inr \<lparr>uart_read_value = 0x41, uart_reads = 1, trng_inits = 0, trng_draws = 0,
        trace = [Uart_getc CY_RSLT_SUCCESS 0x41]\<rparr> \<and>
   uart_rx \<lparr>uart_rx = (\<lambda>n. (CY_RSLT_SUCCESS, 0x0D)), trng_init_rslt = (\<lambda>n. CY_RSLT_SUCCESS),
            trng_words = (\<lambda>n. 0x12345678)\<rparr>
     (uart_reads \<lparr>uart_read_value = 0, uart_reads = 0, trng_inits = 0, trng_draws = 0,
                 trace = []\<rparr>) = (CY_RSLT_SUCCESS, 0x0D) \<and>
   main_iteration
     \<lparr>uart_rx = (\<lambda>n. (CY_RSLT_SUCCESS, 0x0D)), trng_init_rslt = (\<lambda>n. CY_RSLT_SUCCESS),
      trng_words = (\<lambda>n. 0x12345678)\<rparr>
     \<lparr>uart_read_value = 0, uart_reads = 0, trng_inits = 0, trng_draws = 0, trace = []\<rparr> =
   generate_password
     \<lparr>uart_rx = (\<lambda>n. (CY_RSLT_SUCCESS, 0x0D)), trng_init_rslt = (\<lambda>n. CY_RSLT_SUCCESS),
      trng_words = (\<lambda>n. 0x12345678)\<rparr>
     \<lparr>uart_read_value = 0x0D, uart_reads = 1, trng_inits = 0, trng_draws = 0,
      trace = [Uart_getc CY_RSLT_SUCCESS 0x0D]\<rparr>"
  using main_iteration_dispatch
    [of "\<lparr>uart_rx = (\<lambda>n. (CY_RSLT_SUCCESS, 0x41)), trng_init_rslt = (\<lambda>n. CY_RSLT_SUCCESS),
          trng_words = (\<lambda>n. 0x12345678)\<rparr>"
        "\<lparr>uart_read_value = 0, uart_reads = 0, trng_inits = 0, trng_draws = 0, trace = []\<rparr>"
        "0x41"]
    main_iteration_dispatch
    [of "\<lparr>uart_rx = (\<lambda>n. (CY_RSLT_SUCCESS, 0x0D)), trng_init_rslt = (\<lambda>n. CY_RSLT_SUCCESS),
          trng_words = (\<lambda>n. 0x12345678)\<rparr>"
        "\<lparr>uart_read_value = 0, uart_reads = 0, trng_inits = 0, trng_draws = 0, trace = []\<rparr>"
        "0x0D"]
  by simp

end
